theory Spec2Isabelle
  imports Main "HOL-Library.Word"
begin

section \<open>JavaScript strings\<close>

text \<open>
  A JavaScript string is a sequence of UTF-16 code units. \<open>s.length\<close> is the length of
  that sequence, \<open>!s\<close> holds exactly for the empty sequence, and \<open>===\<close> (which
  \<open>switch\<close> uses) is equality of sequences.
\<close>

type_synonym codeunit = "16 word"
type_synonym jsstring = "codeunit list"

definition js :: "string \<Rightarrow> jsstring" where
  \<comment> \<open>An ASCII string literal of the source.\<close>
  "js = map of_char"

definition is_white_space :: "codeunit \<Rightarrow> bool" where
  \<comment> \<open>ECMAScript WhiteSpace and LineTerminator: what \<open>\s\<close> matches and what \<open>trim\<close> strips.\<close>
  "is_white_space c \<longleftrightarrow>
     c = 0x09 \<or> c = 0x0A \<or> c = 0x0B \<or> c = 0x0C \<or> c = 0x0D \<or> c = 0x20 \<or> c = 0xA0 \<or>
     c = 0x1680 \<or> (0x2000 \<le> c \<and> c \<le> 0x200A) \<or> c = 0x2028 \<or> c = 0x2029 \<or>
     c = 0x202F \<or> c = 0x205F \<or> c = 0x3000 \<or> c = 0xFEFF"

definition trim :: "jsstring \<Rightarrow> jsstring" where
  \<comment> \<open>\<open>String.prototype.trim\<close>\<close>
  "trim s = rev (dropWhile is_white_space (rev (dropWhile is_white_space s)))"

section \<open>Regular expressions\<close>

text \<open>
  The fragment of regular expressions that \<open>emailRegex\<close> and its derivatives need.
  \<open>Class P\<close> is a character class given by its membership test, \<open>Plus\<close> is the
  quantifier \<open>+\<close>. Matching is by derivatives: \<open>deriv c r\<close> matches what \<open>r\<close>
  matches after a leading \<open>c\<close>.
\<close>

datatype regex =
    Never
  | Empty
  | Class "codeunit \<Rightarrow> bool"
  | Seq regex regex
  | Alt regex regex
  | Star regex
  | Plus regex

fun nullable :: "regex \<Rightarrow> bool" where
  "nullable Never = False"
| "nullable Empty = True"
| "nullable (Class P) = False"
| "nullable (Seq r s) = (nullable r \<and> nullable s)"
| "nullable (Alt r s) = (nullable r \<or> nullable s)"
| "nullable (Star r) = True"
| "nullable (Plus r) = nullable r"

fun deriv :: "codeunit \<Rightarrow> regex \<Rightarrow> regex" where
  "deriv c Never = Never"
| "deriv c Empty = Never"
| "deriv c (Class P) = (if P c then Empty else Never)"
| "deriv c (Seq r s) =
     (if nullable r then Alt (Seq (deriv c r) s) (deriv c s) else Seq (deriv c r) s)"
| "deriv c (Alt r s) = Alt (deriv c r) (deriv c s)"
| "deriv c (Star r) = Seq (deriv c r) (Star r)"
| "deriv c (Plus r) = Seq (deriv c r) (Star r)"

fun test :: "regex \<Rightarrow> jsstring \<Rightarrow> bool" where
  \<comment> \<open>\<open>RegExp.prototype.test\<close> for a pattern anchored by \<open>^\<close> and \<open>$\<close> (no flags):
      the whole string has to match.\<close>
  "test r [] = nullable r"
| "test r (c # cs) = test (deriv c r) cs"

definition at_sign :: codeunit where
  "at_sign = 0x40"

definition full_stop :: codeunit where
  "full_stop = 0x2E"

definition Lit :: "codeunit \<Rightarrow> regex" where
  "Lit c = Class (\<lambda>x. x = c)"

definition not_space_at :: "codeunit \<Rightarrow> bool" where
  \<comment> \<open>the class \<open>[^\s@]\<close>\<close>
  "not_space_at c \<longleftrightarrow> \<not> is_white_space c \<and> c \<noteq> at_sign"

definition emailRegex :: regex where
  \<comment> \<open>\<open>/^[^\s@]+@[^\s@]+\.[^\s@]+$/\<close>\<close>
  "emailRegex =
     Seq (Plus (Class not_space_at))
       (Seq (Lit at_sign)
         (Seq (Plus (Class not_space_at))
           (Seq (Lit full_stop) (Plus (Class not_space_at)))))"

subsection \<open>The language of a regular expression\<close>

definition conc :: "jsstring set \<Rightarrow> jsstring set \<Rightarrow> jsstring set" where
  "conc A B = {xs @ ys | xs ys. xs \<in> A \<and> ys \<in> B}"

inductive_set star :: "jsstring set \<Rightarrow> jsstring set" for A :: "jsstring set" where
  star_nil: "[] \<in> star A"
| star_app: "xs \<in> A \<Longrightarrow> ys \<in> star A \<Longrightarrow> xs @ ys \<in> star A"

fun lang :: "regex \<Rightarrow> jsstring set" where
  "lang Never = {}"
| "lang Empty = {[]}"
| "lang (Class P) = {[c] | c. P c}"
| "lang (Seq r s) = conc (lang r) (lang s)"
| "lang (Alt r s) = lang r \<union> lang s"
| "lang (Star r) = star (lang r)"
| "lang (Plus r) = conc (lang r) (star (lang r))"

subsection \<open>The shape of an accepted email\<close>

text \<open>
  The part of an address before its first \<open>@\<close> and the part after it.
\<close>

definition local_part :: "jsstring \<Rightarrow> jsstring" where
  "local_part e = takeWhile (\<lambda>c. c \<noteq> at_sign) e"

definition domain_part :: "jsstring \<Rightarrow> jsstring" where
  "domain_part e = drop 1 (dropWhile (\<lambda>c. c \<noteq> at_sign) e)"

definition email_format :: "jsstring \<Rightarrow> bool" where
  \<comment> \<open>No white space, exactly one \<open>@\<close>, something before it, and after it a \<open>.\<close> that
      is neither the first nor the last character.\<close>
  "email_format e \<longleftrightarrow>
     (\<forall>c \<in> set e. \<not> is_white_space c) \<and>
     count_list e at_sign = 1 \<and>
     local_part e \<noteq> [] \<and>
     full_stop \<in> set (butlast (tl (domain_part e)))"

definition spec_email_format :: "jsstring \<Rightarrow> bool" where
  \<comment> \<open>The format as the specification words it: no white space, exactly one \<open>@\<close>,
      at least one \<open>.\<close> after it.\<close>
  "spec_email_format e \<longleftrightarrow>
     (\<forall>c \<in> set e. \<not> is_white_space c) \<and>
     count_list e at_sign = 1 \<and>
     full_stop \<in> set (domain_part e)"

section \<open>The authentication screen\<close>

text \<open>
  The four \<open>useState\<close> cells of the component. A setter replaces the value of its cell;
  the model applies the setters in program order.
\<close>

record FormState =
  email :: jsstring
  password :: jsstring
  loading :: bool
  error :: jsstring

text \<open>
  The calls the component makes on \<open>supabase.auth\<close>, with their arguments, and what can
  come back. The client itself lives outside this component, so its answer is a parameter
  of the model: the promise rejects (the awaited call throws), or it resolves to a response
  object whose \<open>error\<close> is absent or carries a message, and (for sign-up) whose
  \<open>data.session\<close> is absent or present.
\<close>

datatype AuthCall =
    SignInWithPassword jsstring jsstring
  | SignUp jsstring jsstring

datatype AuthError = AuthError (message: jsstring)

datatype Session = ActiveSession

datatype SignInResult =
    SignInRejects
  | SignInResolves "AuthError option"

datatype SignUpResult =
    SignUpRejects
  | SignUpResolves "Session option" "AuthError option"

text \<open>
  What the component does to the outside is logged next to its state: every call on the
  auth client, together with the form state at the moment the call is issued, and every
  \<open>Alert.alert(title, message)\<close>.
\<close>

record World =
  form :: FormState
  requests :: "(AuthCall \<times> FormState) list"
  alerts :: "(jsstring \<times> jsstring) list"

definition setEmail :: "jsstring \<Rightarrow> World \<Rightarrow> World" where
  "setEmail t w = w\<lparr>form := (form w)\<lparr>email := t\<rparr>\<rparr>"

definition setPassword :: "jsstring \<Rightarrow> World \<Rightarrow> World" where
  "setPassword t w = w\<lparr>form := (form w)\<lparr>password := t\<rparr>\<rparr>"

definition setLoading :: "bool \<Rightarrow> World \<Rightarrow> World" where
  "setLoading b w = w\<lparr>form := (form w)\<lparr>loading := b\<rparr>\<rparr>"

definition setError :: "jsstring \<Rightarrow> World \<Rightarrow> World" where
  "setError m w = w\<lparr>form := (form w)\<lparr>error := m\<rparr>\<rparr>"

definition call :: "AuthCall \<Rightarrow> World \<Rightarrow> World" where
  "call c w = w\<lparr>requests := requests w @ [(c, form w)]\<rparr>"

definition alert :: "jsstring \<Rightarrow> jsstring \<Rightarrow> World \<Rightarrow> World" where
  "alert title msg w = w\<lparr>alerts := alerts w @ [(title, msg)]\<rparr>"

subsection \<open>signInWithEmail\<close>

text \<open>
  An \<open>async\<close> function runs in two parts. The first part runs up to the \<open>await\<close>: it
  either returns (\<open>Inl\<close>) or issues the call and suspends (\<open>Inr\<close>). The second part
  runs when the promise settles: the \<open>try\<close> body after the \<open>await\<close>, or the
  \<open>catch\<close> block, and then the \<open>finally\<close> block.
\<close>

definition signInWithEmail_begin :: "World \<Rightarrow> World + World" where
  "signInWithEmail_begin w =
     (if email (form w) = [] \<or> password (form w) = [] then
        Inl (setError (js ''Please enter both email and password'') w)
      else
        Inr (call (SignInWithPassword (trim (email (form w))) (password (form w)))
              (setError [] (setLoading True w))))"

definition signInWithEmail_resume :: "SignInResult \<Rightarrow> World \<Rightarrow> World" where
  "signInWithEmail_resume r w =
     setLoading False
       (case r of
          SignInRejects \<Rightarrow> setError (js ''Network error. Please check your connection.'') w
        | SignInResolves None \<Rightarrow> w
        | SignInResolves (Some e) \<Rightarrow>
            (if message e = js ''Invalid login credentials'' then
               setError (js ''Incorrect email or password'') w
             else if message e = js ''Email not confirmed'' then
               setError (js ''Please verify your email first'') w
             else
               setError (js ''An unexpected error occurred. Please try again.'') w))"

definition signInWithEmail :: "SignInResult \<Rightarrow> World \<Rightarrow> World" where
  \<comment> \<open>one whole invocation, the promise settling with \<open>r\<close>\<close>
  "signInWithEmail r w =
     (case signInWithEmail_begin w of
        Inl w' \<Rightarrow> w'
      | Inr w' \<Rightarrow> signInWithEmail_resume r w')"

subsection \<open>signUpWithEmail\<close>

definition signUpWithEmail_begin :: "World \<Rightarrow> World + World" where
  "signUpWithEmail_begin w =
     (if email (form w) = [] \<or> password (form w) = [] then
        Inl (setError (js ''Please enter both email and password'') w)
      else if \<not> test emailRegex (email (form w)) then
        Inl (setError (js ''Please enter a valid email address'') w)
      else if length (password (form w)) < 6 then
        Inl (setError (js ''Password must be at least 6 characters long'') w)
      else
        Inr (call (SignUp (trim (email (form w))) (password (form w)))
              (setError [] (setLoading True w))))"

definition signUpWithEmail_resume :: "SignUpResult \<Rightarrow> World \<Rightarrow> World" where
  "signUpWithEmail_resume r w =
     setLoading False
       (case r of
          SignUpRejects \<Rightarrow> setError (js ''Network error. Please check your connection.'') w
        | SignUpResolves session err \<Rightarrow>
            (case err of
               Some e \<Rightarrow>
                 (if message e = js ''User already exists'' then
                    setError (js ''An account with this email already exists'') w
                  else
                    setError
                      (if message e \<noteq> [] then message e
                       else js ''Sign up failed. Please try again.'') w)
             | None \<Rightarrow>
                 (if session = None then
                    alert (js ''Verification Needed'')
                      (js ''Please check your inbox for email verification!'') w
                  else w)))"

definition signUpWithEmail :: "SignUpResult \<Rightarrow> World \<Rightarrow> World" where
  "signUpWithEmail r w =
     (case signUpWithEmail_begin w of
        Inl w' \<Rightarrow> w'
      | Inr w' \<Rightarrow> signUpWithEmail_resume r w')"


subsection \<open>The rendered controls\<close>

text \<open>
  The \<open>onChangeText\<close> handlers of the two inputs: the setter of the field, then
  \<open>setError('')\<close>.
\<close>

definition onChangeEmail :: "jsstring \<Rightarrow> World \<Rightarrow> World" where
  "onChangeEmail t w = setError [] (setEmail t w)"

definition onChangePassword :: "jsstring \<Rightarrow> World \<Rightarrow> World" where
  "onChangePassword t w = setError [] (setPassword t w)"

text \<open>
  The screen as the user and the auth client drive it. Both inputs are rendered with
  \<open>editable={!loading}\<close> and both buttons with \<open>disabled={loading}\<close>, so while
  \<open>loading\<close> holds a keystroke or a press reaches no handler. A screen is the component's
  world together with the invocations suspended at their \<open>await\<close>; a settled promise
  resumes the invocation that waits for it.
\<close>

datatype Flow = SignInFlow | SignUpFlow

datatype Event =
    TypeEmail jsstring
  | TypePassword jsstring
  | PressSignIn
  | PressSignUp
  | SignInSettles SignInResult
  | SignUpSettles SignUpResult

type_synonym Screen = "World \<times> Flow list"

fun fire :: "Event \<Rightarrow> Screen \<Rightarrow> Screen" where
  "fire (TypeEmail t) (w, q) =
     (if loading (form w) then (w, q) else (onChangeEmail t w, q))"
| "fire (TypePassword t) (w, q) =
     (if loading (form w) then (w, q) else (onChangePassword t w, q))"
| "fire PressSignIn (w, q) =
     (if loading (form w) then (w, q)
      else case signInWithEmail_begin w of
             Inl w' \<Rightarrow> (w', q)
           | Inr w' \<Rightarrow> (w', q @ [SignInFlow]))"
| "fire PressSignUp (w, q) =
     (if loading (form w) then (w, q)
      else case signUpWithEmail_begin w of
             Inl w' \<Rightarrow> (w', q)
           | Inr w' \<Rightarrow> (w', q @ [SignUpFlow]))"
| "fire (SignInSettles r) (w, q) =
     (if SignInFlow \<in> set q then (signInWithEmail_resume r w, remove1 SignInFlow q)
      else (w, q))"
| "fire (SignUpSettles r) (w, q) =
     (if SignUpFlow \<in> set q then (signUpWithEmail_resume r w, remove1 SignUpFlow q)
      else (w, q))"

definition screen :: "jsstring \<Rightarrow> jsstring \<Rightarrow> bool \<Rightarrow> jsstring \<Rightarrow> World" where
  \<comment> \<open>the component with the given values in its four cells, and nothing logged yet\<close>
  "screen e p l err =
     \<lparr>form = \<lparr>email = e, password = p, loading = l, error = err\<rparr>, requests = [], alerts = []\<rparr>"

definition initial :: Screen where
  \<comment> \<open>\<open>useState('')\<close>, \<open>useState('')\<close>, \<open>useState(false)\<close>, \<open>useState('')\<close>\<close>
  "initial = (screen [] [] False [], [])"

definition run :: "Event list \<Rightarrow> Screen" where
  "run es = foldl (\<lambda>s e. fire e s) initial es"

definition cleared_at_dispatch :: "World \<Rightarrow> bool" where
  \<comment> \<open>Every logged call was issued with \<open>loading\<close> set and \<open>error\<close> empty, and
      \<open>loading\<close> is only set once a call has been issued.\<close>
  "cleared_at_dispatch w \<longleftrightarrow>
     (\<forall>(c, f) \<in> set (requests w). loading f \<and> error f = []) \<and>
     (loading (form w) \<longrightarrow> requests w \<noteq> [])"

section \<open>The matcher decides the language\<close>

lemma conc_iff: "zs \<in> conc A B \<longleftrightarrow> (\<exists>xs ys. zs = xs @ ys \<and> xs \<in> A \<and> ys \<in> B)"
  by (auto simp: conc_def)

lemma nil_in_conc: "[] \<in> conc A B \<longleftrightarrow> [] \<in> A \<and> [] \<in> B"
  by (auto simp: conc_iff)

lemma nullable_lang: "nullable r \<longleftrightarrow> [] \<in> lang r"
  by (induction r) (auto simp: nil_in_conc intro: star.star_nil)

lemma cons_in_conc:
  "c # zs \<in> conc A B \<longleftrightarrow>
     ([] \<in> A \<and> c # zs \<in> B) \<or> (\<exists>xs ys. zs = xs @ ys \<and> c # xs \<in> A \<and> ys \<in> B)"
proof
  assume "c # zs \<in> conc A B"
  then obtain xs ys where d: "c # zs = xs @ ys" "xs \<in> A" "ys \<in> B"
    by (auto simp: conc_iff)
  show "([] \<in> A \<and> c # zs \<in> B) \<or> (\<exists>xs ys. zs = xs @ ys \<and> c # xs \<in> A \<and> ys \<in> B)"
  proof (cases xs)
    case Nil
    with d show ?thesis by simp
  next
    case (Cons x xs')
    with d have "zs = xs' @ ys" "c # xs' \<in> A" by auto
    with d show ?thesis by blast
  qed
next
  assume "([] \<in> A \<and> c # zs \<in> B) \<or> (\<exists>xs ys. zs = xs @ ys \<and> c # xs \<in> A \<and> ys \<in> B)"
  then show "c # zs \<in> conc A B"
  proof
    assume "[] \<in> A \<and> c # zs \<in> B"
    then show ?thesis
      unfolding conc_iff by (intro exI [of _ "[]"] exI [of _ "c # zs"]) simp
  next
    assume "\<exists>xs ys. zs = xs @ ys \<and> c # xs \<in> A \<and> ys \<in> B"
    then obtain xs ys where "zs = xs @ ys" "c # xs \<in> A" "ys \<in> B" by blast
    then show ?thesis
      unfolding conc_iff by (intro exI [of _ "c # xs"] exI [of _ ys]) simp
  qed
qed

lemma star_cons_split:
  assumes "zs \<in> star A" and "zs = c # cs"
  shows "\<exists>xs ys. cs = xs @ ys \<and> c # xs \<in> A \<and> ys \<in> star A"
  using assms
proof (induction rule: star.induct)
  case star_nil
  then show ?case by simp
next
  case (star_app xs ys)
  show ?case
  proof (cases xs)
    case Nil
    with star_app show ?thesis by simp
  next
    case (Cons x xs')
    with star_app.prems have "x = c" "cs = xs' @ ys" by auto
    with Cons star_app.hyps show ?thesis by blast
  qed
qed

lemma cons_in_star:
  "c # cs \<in> star A \<longleftrightarrow> (\<exists>xs ys. cs = xs @ ys \<and> c # xs \<in> A \<and> ys \<in> star A)"
proof
  assume "c # cs \<in> star A"
  then show "\<exists>xs ys. cs = xs @ ys \<and> c # xs \<in> A \<and> ys \<in> star A"
    by (rule star_cons_split) simp
next
  assume "\<exists>xs ys. cs = xs @ ys \<and> c # xs \<in> A \<and> ys \<in> star A"
  then obtain xs ys where "cs = xs @ ys" "c # xs \<in> A" "ys \<in> star A" by blast
  then show "c # cs \<in> star A"
    using star.star_app [of "c # xs" A ys] by simp
qed

lemma deriv_lang: "cs \<in> lang (deriv c r) \<longleftrightarrow> c # cs \<in> lang r"
proof (induction r arbitrary: cs)
  case (Seq r s)
  show ?case
  proof (cases "nullable r")
    case True
    then show ?thesis
      by (simp add: cons_in_conc [of c cs] conc_iff [of cs] nullable_lang Seq disj_commute)
  next
    case False
    then show ?thesis
      by (simp add: cons_in_conc [of c cs] conc_iff [of cs] nullable_lang Seq)
  qed
next
  case (Star r)
  then show ?case
    by (simp add: cons_in_star conc_iff)
next
  case (Plus r)
  have "c # cs \<in> conc (lang r) (star (lang r)) \<longleftrightarrow>
        (\<exists>xs ys. cs = xs @ ys \<and> c # xs \<in> lang r \<and> ys \<in> star (lang r))"
    by (auto simp: cons_in_conc cons_in_star)
  with Plus show ?case
    by (simp add: conc_iff)
qed auto

lemma test_lang: "test r s \<longleftrightarrow> s \<in> lang r"
  by (induction s arbitrary: r) (simp_all add: nullable_lang deriv_lang)

lemma star_class: "xs \<in> star {[c] | c. P c} \<longleftrightarrow> (\<forall>c \<in> set xs. P c)"
proof
  assume "xs \<in> star {[c] | c. P c}"
  then show "\<forall>c \<in> set xs. P c"
    by (induction rule: star.induct) auto
next
  assume "\<forall>c \<in> set xs. P c"
  then show "xs \<in> star {[c] | c. P c}"
  proof (induction xs)
    case Nil
    show ?case by (rule star.star_nil)
  next
    case (Cons x xs)
    then have "[x] \<in> {[c] | c. P c}" "xs \<in> star {[c] | c. P c}" by auto
    then have "[x] @ xs \<in> star {[c] | c. P c}" by (rule star.star_app)
    then show ?case by simp
  qed
qed

lemma lang_Plus_Class:
  "xs \<in> lang (Plus (Class P)) \<longleftrightarrow> xs \<noteq> [] \<and> (\<forall>c \<in> set xs. P c)"
proof (cases xs)
  case Nil
  then show ?thesis by (simp add: nil_in_conc)
next
  case (Cons x xs')
  then show ?thesis
    by (simp add: cons_in_conc star_class)
qed

lemma lang_Lit: "xs \<in> lang (Lit c) \<longleftrightarrow> xs = [c]"
  by (auto simp: Lit_def)

lemma lang_emailRegex:
  "e \<in> lang emailRegex \<longleftrightarrow>
     (\<exists>l d t. e = l @ [at_sign] @ d @ [full_stop] @ t \<and> l \<noteq> [] \<and> d \<noteq> [] \<and> t \<noteq> [] \<and>
        (\<forall>c \<in> set l. not_space_at c) \<and> (\<forall>c \<in> set d. not_space_at c) \<and>
        (\<forall>c \<in> set t. not_space_at c))"
  unfolding emailRegex_def lang.simps(4) conc_iff lang_Plus_Class lang_Lit
  by (auto; blast)

section \<open>What \<open>emailRegex\<close> accepts\<close>

lemma count_list_zero: "count_list xs a = 0 \<longleftrightarrow> a \<notin> set xs"
  by (induction xs) auto

lemma split_at_sign:
  assumes "at_sign \<notin> set l"
  shows "local_part (l @ at_sign # r) = l" and "domain_part (l @ at_sign # r) = r"
  using assms by (induction l) (auto simp: local_part_def domain_part_def)

lemma count_one_split:
  assumes "count_list e at_sign = 1"
  shows "local_part e @ at_sign # domain_part e = e"
    and "at_sign \<notin> set (local_part e)" and "at_sign \<notin> set (domain_part e)"
proof -
  let ?P = "\<lambda>c. c \<noteq> at_sign"
  have "count_list e at_sign \<noteq> 0"
    using assms by simp
  then have mem: "at_sign \<in> set e"
    by (simp add: count_list_zero)
  then have ne: "dropWhile ?P e \<noteq> []"
    by simp
  then have "hd (dropWhile ?P e) = at_sign"
    using hd_dropWhile [of ?P e] by simp
  with ne have dw: "dropWhile ?P e = at_sign # domain_part e"
    by (cases "dropWhile ?P e") (simp_all add: domain_part_def)
  have "takeWhile ?P e @ dropWhile ?P e = e" by simp
  then show e: "local_part e @ at_sign # domain_part e = e"
    by (simp only: dw local_part_def)
  show l: "at_sign \<notin> set (local_part e)"
    unfolding local_part_def by (auto dest: set_takeWhileD)
  have "count_list (local_part e @ at_sign # domain_part e) at_sign = 1"
    by (simp only: e assms)
  then have "count_list (domain_part e) at_sign = 0"
    by simp
  then show "at_sign \<notin> set (domain_part e)" by (simp add: count_list_zero)
qed

lemma email_format_decompose:
  "email_format e \<longleftrightarrow>
     (\<exists>l d t. e = l @ [at_sign] @ d @ [full_stop] @ t \<and> l \<noteq> [] \<and> d \<noteq> [] \<and> t \<noteq> [] \<and>
        (\<forall>c \<in> set l. not_space_at c) \<and> (\<forall>c \<in> set d. not_space_at c) \<and>
        (\<forall>c \<in> set t. not_space_at c))"
  (is "_ \<longleftrightarrow> ?rhs")
proof
  assume f: "email_format e"
  then have one: "count_list e at_sign = 1" and ws: "\<forall>c \<in> set e. \<not> is_white_space c"
    and l: "local_part e \<noteq> []"
    by (simp_all add: email_format_def)
  from f have dot: "full_stop \<in> set (butlast (tl (domain_part e)))"
    by (simp add: email_format_def)
  define lp where "lp = local_part e"
  define dom where "dom = domain_part e"
  from dot obtain ys zs where yz: "butlast (tl dom) = ys @ full_stop # zs"
    unfolding dom_def by (auto simp: in_set_conv_decomp)
  then have tlne: "tl dom \<noteq> []" by auto
  then obtain x where x: "dom = x # tl dom" by (cases dom) auto
  define d where "d = x # ys"
  define t where "t = zs @ [last (tl dom)]"
  have sp: "lp @ at_sign # dom = e" "at_sign \<notin> set lp" "at_sign \<notin> set dom"
    unfolding lp_def dom_def by (rule count_one_split [OF one])+
  have "tl dom = butlast (tl dom) @ [last (tl dom)]"
    using tlne by simp
  then have "tl dom = ys @ full_stop # t"
    by (simp add: yz t_def)
  with x have dom: "dom = d @ [full_stop] @ t"
    by (simp add: d_def)
  have e: "e = lp @ [at_sign] @ d @ [full_stop] @ t"
    using sp(1) by (simp add: dom)
  have noat: "at_sign \<notin> set d" "at_sign \<notin> set t"
    using sp(3) by (simp_all add: dom)
  have "\<forall>c \<in> set lp. not_space_at c" "\<forall>c \<in> set d. not_space_at c" "\<forall>c \<in> set t. not_space_at c"
    using ws sp(2) noat by (auto simp: not_space_at_def e)
  moreover have "d \<noteq> []" "t \<noteq> []" by (simp_all add: d_def t_def)
  moreover have "lp \<noteq> []" using l by (simp add: lp_def)
  ultimately show ?rhs using e by blast
next
  assume ?rhs
  then obtain l d t where e: "e = l @ [at_sign] @ d @ [full_stop] @ t"
    and ne: "l \<noteq> []" "d \<noteq> []" "t \<noteq> []"
    and ok: "\<forall>c \<in> set l. not_space_at c" "\<forall>c \<in> set d. not_space_at c" "\<forall>c \<in> set t. not_space_at c"
    by blast
  have fs: "full_stop \<noteq> at_sign" "\<not> is_white_space full_stop" "\<not> is_white_space at_sign"
    by (simp_all add: full_stop_def at_sign_def is_white_space_def)
  from ok have noat: "at_sign \<notin> set l" "at_sign \<notin> set d" "at_sign \<notin> set t"
    by (auto simp: not_space_at_def)
  have e': "e = l @ at_sign # (d @ [full_stop] @ t)" using e by simp
  have lp: "local_part e = l" and dp: "domain_part e = d @ [full_stop] @ t"
    unfolding e' using noat(1) by (rule split_at_sign)+
  have "count_list e at_sign = 1"
    using noat fs by (simp add: e count_list_zero)
  moreover have "\<forall>c \<in> set e. \<not> is_white_space c"
    using ok fs by (auto simp: e not_space_at_def)
  moreover have "full_stop \<in> set (butlast (tl (domain_part e)))"
  proof -
    obtain x d' where d: "d = x # d'" using ne(2) by (cases d) auto
    have "butlast (tl (domain_part e)) = d' @ full_stop # butlast t"
      using ne(3) by (simp add: dp d butlast_append)
    then show ?thesis by simp
  qed
  ultimately show "email_format e"
    using lp ne unfolding email_format_def by auto
qed

lemma test_emailRegex: "test emailRegex e \<longleftrightarrow> email_format e"
  by (simp only: test_lang lang_emailRegex email_format_decompose)

lemma trim_id:
  assumes "\<forall>c \<in> set e. \<not> is_white_space c"
  shows "trim e = e"
proof -
  have "dropWhile is_white_space xs = xs" if "\<forall>c \<in> set xs. \<not> is_white_space c" for xs
    using that by (cases xs) auto
  from this [of e] this [of "rev e"] assms show ?thesis
    by (simp add: trim_def)
qed

lemma email_format_nonempty: "email_format e \<Longrightarrow> e \<noteq> []"
  by (auto simp: email_format_def local_part_def)

lemma email_format_trim: "email_format e \<Longrightarrow> trim e = e"
  by (rule trim_id) (simp add: email_format_def)

section \<open>The handlers\<close>

lemmas setter_defs = setEmail_def setPassword_def setLoading_def setError_def call_def alert_def

lemmas handler_defs = signInWithEmail_def signInWithEmail_begin_def signInWithEmail_resume_def
  signUpWithEmail_def signUpWithEmail_begin_def signUpWithEmail_resume_def

lemmas literal_defs = js_def is_white_space_def at_sign_def full_stop_def

lemmas format_defs = email_format_def local_part_def domain_part_def

lemmas regex_defs = emailRegex_def Lit_def not_space_at_def

lemma submit_keeps:
  "email (form (signInWithEmail r w)) = email (form w)"
  "password (form (signInWithEmail r w)) = password (form w)"
  "email (form (signUpWithEmail r' w)) = email (form w)"
  "password (form (signUpWithEmail r' w)) = password (form w)"
  by (simp_all add: handler_defs setter_defs split: SignInResult.split SignUpResult.split option.split)

subsection \<open>Submitting while a request is in flight\<close>

lemma run_append: "run (es @ es') = foldl (\<lambda>s e. fire e s) (run es) es'"
  by (simp add: run_def)

lemma begin_loading:
  "signInWithEmail_begin w = Inl w' \<Longrightarrow> loading (form w') = loading (form w)"
  "signInWithEmail_begin w = Inr w' \<Longrightarrow> loading (form w')"
  "signUpWithEmail_begin w = Inl w' \<Longrightarrow> loading (form w') = loading (form w)"
  "signUpWithEmail_begin w = Inr w' \<Longrightarrow> loading (form w')"
  by (auto simp: signInWithEmail_begin_def signUpWithEmail_begin_def setter_defs
      split: if_splits)

lemma resume_not_loading:
  "\<not> loading (form (signInWithEmail_resume r w))"
  "\<not> loading (form (signUpWithEmail_resume r' w))"
  by (simp_all add: signInWithEmail_resume_def signUpWithEmail_resume_def setter_defs)

lemma onChange_loading:
  "loading (form (onChangeEmail t w)) = loading (form w)"
  "loading (form (onChangePassword t w)) = loading (form w)"
  by (simp_all add: onChangeEmail_def onChangePassword_def setter_defs)

lemma fire_in_flight:
  assumes "(loading (form (fst s)) \<longrightarrow> length (snd s) = 1) \<and>
           (\<not> loading (form (fst s)) \<longrightarrow> snd s = [])"
  shows "(loading (form (fst (fire e s))) \<longrightarrow> length (snd (fire e s)) = 1) \<and>
         (\<not> loading (form (fst (fire e s))) \<longrightarrow> snd (fire e s) = [])"
proof (cases s)
  case (Pair w q)
  with assms have q: "(loading (form w) \<longrightarrow> length q = 1) \<and> (\<not> loading (form w) \<longrightarrow> q = [])"
    by simp
  show ?thesis
  proof (cases e)
    case (TypeEmail t)
    with Pair q show ?thesis by (simp add: onChange_loading)
  next
    case (TypePassword t)
    with Pair q show ?thesis by (simp add: onChange_loading)
  next
    case PressSignIn
    with Pair q show ?thesis
      by (auto simp: begin_loading split: sum.splits)
  next
    case PressSignUp
    with Pair q show ?thesis
      by (auto simp: begin_loading split: sum.splits)
  next
    case (SignInSettles r)
    show ?thesis
    proof (cases "SignInFlow \<in> set q")
      case True
      with q have "q = [SignInFlow]"
        by (cases q) (auto split: if_splits)
      with Pair SignInSettles show ?thesis by (simp add: resume_not_loading)
    next
      case False
      with Pair SignInSettles q show ?thesis by simp
    qed
  next
    case (SignUpSettles r)
    show ?thesis
    proof (cases "SignUpFlow \<in> set q")
      case True
      with q have "q = [SignUpFlow]"
        by (cases q) (auto split: if_splits)
      with Pair SignUpSettles show ?thesis by (simp add: resume_not_loading)
    next
      case False
      with Pair SignUpSettles q show ?thesis by simp
    qed
  qed
qed

lemma run_in_flight:
  "(loading (form (fst (run es))) \<longrightarrow> length (snd (run es)) = 1) \<and>
   (\<not> loading (form (fst (run es))) \<longrightarrow> snd (run es) = [])"
proof (induction es rule: rev_induct)
  case Nil
  show ?case by (simp add: run_def initial_def screen_def)
next
  case (snoc e es)
  have "run (es @ [e]) = fire e (run es)" by (simp add: run_append)
  with fire_in_flight [OF snoc, of e] show ?case by simp
qed

text \<open>
  Claim C1: the sign-in and the sign-up handler are invoked by a press on their button
  and in no other way, and both buttons are rendered disabled while \<open>loading\<close> is set.
  On every screen reached with \<open>loading\<close> set, exactly one invocation is in flight, and
  a press on either button is dropped: the form state, the log of calls, the alerts and
  the invocation in flight are what they were, and whatever happens afterwards happens
  as if the press had not been made.
\<close>

theorem press_while_loading_dropped:
  assumes "loading (form (fst (run es)))"
  shows "length (snd (run es)) = 1 \<and>
         run (es @ [PressSignIn]) = run es \<and>
         run (es @ [PressSignUp]) = run es \<and>
         run (es @ PressSignIn # es') = run (es @ es') \<and>
         run (es @ PressSignUp # es') = run (es @ es')"
proof -
  obtain w q where s: "run es = (w, q)" by (cases "run es")
  with assms have l: "loading (form w)" by simp
  have one: "length (snd (run es)) = 1"
    using run_in_flight [of es] assms by simp
  have "fire PressSignIn (run es) = run es" "fire PressSignUp (run es) = run es"
    using l by (simp_all add: s)
  then have "run (es @ PressSignIn # es') = run (es @ es')"
    "run (es @ PressSignUp # es') = run (es @ es')" for es'
    by (simp_all add: run_append)
  from this [of "[]"] this [of es'] one show ?thesis by simp
qed

theorem press_while_loading_dropped_witness:
  "loading (form (fst (run [TypeEmail (js ''a@b.co''), TypePassword (js ''123456''), PressSignIn]))) \<and>
   map fst (requests (fst (run [TypeEmail (js ''a@b.co''), TypePassword (js ''123456''), PressSignIn])))
     = [SignInWithPassword (js ''a@b.co'') (js ''123456'')] \<and>
   run ([TypeEmail (js ''a@b.co''), TypePassword (js ''123456''), PressSignIn] @ [PressSignIn])
     = run [TypeEmail (js ''a@b.co''), TypePassword (js ''123456''), PressSignIn] \<and>
   run ([TypeEmail (js ''a@b.co''), TypePassword (js ''123456''), PressSignIn] @ [PressSignUp])
     = run [TypeEmail (js ''a@b.co''), TypePassword (js ''123456''), PressSignIn] \<and>
   run ([TypeEmail (js ''a@b.co''), TypePassword (js ''123456''), PressSignIn] @
        PressSignUp # [SignInSettles SignInRejects])
     = run ([TypeEmail (js ''a@b.co''), TypePassword (js ''123456''), PressSignIn] @
        [SignInSettles SignInRejects])"
proof -
  have l: "loading (form (fst (run [TypeEmail (js ''a@b.co''), TypePassword (js ''123456''),
      PressSignIn])))"
    and r: "map fst (requests (fst (run [TypeEmail (js ''a@b.co''), TypePassword (js ''123456''),
      PressSignIn]))) = [SignInWithPassword (js ''a@b.co'') (js ''123456'')]"
    by (simp_all add: run_def initial_def screen_def onChangeEmail_def onChangePassword_def
        signInWithEmail_begin_def setter_defs literal_defs trim_def)
  from l r press_while_loading_dropped [OF l, of "[SignInSettles SignInRejects]"]
  show ?thesis
    by blast
qed

subsection \<open>Empty fields\<close>

text \<open>
  Claim C2, as stated: an email or password that is empty or only white space is rejected
  with the empty-fields message and without a network call. The handlers test the raw
  strings for emptiness only. With a one-space email and a six-space password, sign-in
  calls the service (with the email trimmed to the empty string) and sign-up reports the
  email-format message instead; with a well-formed email and the six-space password,
  sign-up calls the service.
\<close>

theorem whitespace_only_counterexample:
  "email (form (screen (js '' '') (js ''      '') False [])) \<noteq> [] \<and>
   list_all is_white_space (email (form (screen (js '' '') (js ''      '') False []))) \<and>
   list_all is_white_space (password (form (screen (js '' '') (js ''      '') False []))) \<and>
   map fst (requests (signInWithEmail (SignInResolves None) (screen (js '' '') (js ''      '') False [])))
     = [SignInWithPassword [] (js ''      '')] \<and>
   error (form (signInWithEmail (SignInResolves None) (screen (js '' '') (js ''      '') False []))) = [] \<and>
   error (form (signUpWithEmail (SignUpResolves None None) (screen (js '' '') (js ''      '') False [])))
     = js ''Please enter a valid email address'' \<and>
   map fst (requests (signUpWithEmail (SignUpResolves None None) (screen (js ''a@b.co'') (js ''      '') False [])))
     = [SignUp (js ''a@b.co'') (js ''      '')]"
  by (simp add: screen_def handler_defs setter_defs literal_defs trim_def regex_defs)

text \<open>
  Claim C2, amended: when the email or the password is the empty string, sign-in and
  sign-up both return with the empty-fields message in \<open>error\<close>, with \<open>loading\<close> as it
  was (so false when the handler was invoked on a screen that was not loading), and with
  no call issued, whatever the service would have answered.
\<close>

theorem empty_field_rejected:
  assumes "email (form w) = [] \<or> password (form w) = []"
  shows "error (form (signInWithEmail r w)) = js ''Please enter both email and password'' \<and>
         loading (form (signInWithEmail r w)) = loading (form w) \<and>
         requests (signInWithEmail r w) = requests w \<and>
         error (form (signUpWithEmail r' w)) = js ''Please enter both email and password'' \<and>
         loading (form (signUpWithEmail r' w)) = loading (form w) \<and>
         requests (signUpWithEmail r' w) = requests w"
  using assms by (auto simp: handler_defs setter_defs)

theorem empty_field_rejected_witness:
  "(email (form (screen [] (js ''secret'') False [])) = [] \<or>
      password (form (screen [] (js ''secret'') False [])) = []) \<and>
   form (signInWithEmail (SignInResolves None) (screen [] (js ''secret'') False []))
     = \<lparr>email = [], password = js ''secret'', loading = False,
        error = js ''Please enter both email and password''\<rparr> \<and>
   requests (signInWithEmail (SignInResolves None) (screen [] (js ''secret'') False [])) = [] \<and>
   error (form (signUpWithEmail (SignUpResolves None None) (screen [] (js ''secret'') False [])))
     = js ''Please enter both email and password'' \<and>
   loading (form (signUpWithEmail (SignUpResolves None None) (screen [] (js ''secret'') False []))) = False \<and>
   requests (signUpWithEmail (SignUpResolves None None) (screen [] (js ''secret'') False [])) = []"
proof -
  have h: "email (form (screen [] (js ''secret'') False [])) = [] \<or>
      password (form (screen [] (js ''secret'') False [])) = []"
    by (simp add: screen_def)
  from h empty_field_rejected [OF h, of "SignInResolves None" "SignUpResolves None None"]
  show ?thesis
    by (simp add: screen_def handler_defs setter_defs)
qed

subsection \<open>The order of the sign-up checks\<close>

text \<open>
  Claim C3, as stated: the format check is "no white space, exactly one \<open>@\<close>, at least one
  \<open>.\<close> after it", and input that passes emptiness, format and length leads to one network
  call. The address \<open>a@b.\<close> has that shape, and \<open>123456\<close> is long enough, yet sign-up
  reports the email-format message and calls nothing: the pattern also wants a character
  after the \<open>.\<close> (and before it, and before the \<open>@\<close>).
\<close>

theorem trailing_dot_counterexample:
  "spec_email_format (js ''a@b.'') \<and> 6 \<le> length (js ''123456'') \<and>
   error (form (signUpWithEmail (SignUpResolves None None) (screen (js ''a@b.'') (js ''123456'') False [])))
     = js ''Please enter a valid email address'' \<and>
   requests (signUpWithEmail (SignUpResolves None None) (screen (js ''a@b.'') (js ''123456'') False [])) = []"
  by (simp add: screen_def handler_defs setter_defs literal_defs trim_def regex_defs
      spec_email_format_def domain_part_def)

text \<open>
  Claim C3, amended: sign-up checks emptiness, then the email format, then the password
  length, and reports the first failure only. The format is: no white space, exactly one
  \<open>@\<close> with at least one character before it, and after it a \<open>.\<close> that has at least
  one character on each side (\<open>email_format\<close>, which is what \<open>emailRegex\<close> accepts).
  An empty field gives the empty-fields message; non-empty fields with a malformed email
  give the email-format message; a well-formed email with a non-empty password of fewer
  than 6 code units gives the password-length message; none of the three issues a call.
  A well-formed email with a password of at least 6 code units issues exactly one call,
  \<open>signUp\<close> with that email and password.
\<close>

theorem signUp_validation_order:
  "(email (form w) = [] \<or> password (form w) = [] \<longrightarrow>
      error (form (signUpWithEmail r w)) = js ''Please enter both email and password'' \<and>
      requests (signUpWithEmail r w) = requests w) \<and>
   (email (form w) \<noteq> [] \<and> password (form w) \<noteq> [] \<and> \<not> email_format (email (form w)) \<longrightarrow>
      error (form (signUpWithEmail r w)) = js ''Please enter a valid email address'' \<and>
      requests (signUpWithEmail r w) = requests w) \<and>
   (email_format (email (form w)) \<and> password (form w) \<noteq> [] \<and> length (password (form w)) < 6 \<longrightarrow>
      error (form (signUpWithEmail r w)) = js ''Password must be at least 6 characters long'' \<and>
      requests (signUpWithEmail r w) = requests w) \<and>
   (email_format (email (form w)) \<and> 6 \<le> length (password (form w)) \<longrightarrow>
      requests (signUpWithEmail r w) =
        requests w @ [(SignUp (email (form w)) (password (form w)),
                       (form w)\<lparr>loading := True, error := []\<rparr>)])"
proof -
  have req: "requests (signUpWithEmail_resume r v) = requests v" for v
    by (simp add: signUpWithEmail_resume_def setter_defs split: SignUpResult.split option.split)
  have a: "email (form w) = [] \<or> password (form w) = [] \<Longrightarrow>
      signUpWithEmail r w = setError (js ''Please enter both email and password'') w"
    by (auto simp: signUpWithEmail_def signUpWithEmail_begin_def)
  have b: "email (form w) \<noteq> [] \<and> password (form w) \<noteq> [] \<and> \<not> email_format (email (form w)) \<Longrightarrow>
      signUpWithEmail r w = setError (js ''Please enter a valid email address'') w"
    by (simp add: signUpWithEmail_def signUpWithEmail_begin_def test_emailRegex)
  have c: "email_format (email (form w)) \<and> password (form w) \<noteq> [] \<and> length (password (form w)) < 6 \<Longrightarrow>
      signUpWithEmail r w = setError (js ''Password must be at least 6 characters long'') w"
    by (auto simp: signUpWithEmail_def signUpWithEmail_begin_def test_emailRegex
        dest: email_format_nonempty)
  have d: "email_format (email (form w)) \<and> 6 \<le> length (password (form w)) \<Longrightarrow>
      signUpWithEmail r w =
        signUpWithEmail_resume r
          (call (SignUp (email (form w)) (password (form w))) (setError [] (setLoading True w)))"
    by (auto simp: signUpWithEmail_def signUpWithEmail_begin_def test_emailRegex email_format_trim
        dest: email_format_nonempty)
  show ?thesis
  proof (intro conjI impI)
    assume h: "email (form w) = [] \<or> password (form w) = []"
    show "error (form (signUpWithEmail r w)) = js ''Please enter both email and password''"
      and "requests (signUpWithEmail r w) = requests w"
      by (simp_all add: a [OF h] setter_defs)
  next
    assume h: "email (form w) \<noteq> [] \<and> password (form w) \<noteq> [] \<and> \<not> email_format (email (form w))"
    show "error (form (signUpWithEmail r w)) = js ''Please enter a valid email address''"
      and "requests (signUpWithEmail r w) = requests w"
      by (simp_all add: b [OF h] setter_defs)
  next
    assume h: "email_format (email (form w)) \<and> password (form w) \<noteq> [] \<and> length (password (form w)) < 6"
    show "error (form (signUpWithEmail r w)) = js ''Password must be at least 6 characters long''"
      and "requests (signUpWithEmail r w) = requests w"
      by (simp_all add: c [OF h] setter_defs)
  next
    assume h: "email_format (email (form w)) \<and> 6 \<le> length (password (form w))"
    show "requests (signUpWithEmail r w) =
        requests w @ [(SignUp (email (form w)) (password (form w)),
                       (form w)\<lparr>loading := True, error := []\<rparr>)]"
      by (simp add: d [OF h] req) (simp add: setter_defs)
  qed
qed

theorem signUp_validation_order_witness:
  "error (form (signUpWithEmail SignUpRejects (screen [] [] False []))) =
     js ''Please enter both email and password'' \<and>
   \<not> email_format (js ''not-an-email'') \<and>
   error (form (signUpWithEmail SignUpRejects (screen (js ''not-an-email'') (js ''123456'') False []))) =
     js ''Please enter a valid email address'' \<and>
   requests (signUpWithEmail SignUpRejects (screen (js ''not-an-email'') (js ''123456'') False [])) = [] \<and>
   email_format (js ''a@b.co'') \<and>
   error (form (signUpWithEmail SignUpRejects (screen (js ''a@b.co'') (js ''12345'') False []))) =
     js ''Password must be at least 6 characters long'' \<and>
   requests (signUpWithEmail SignUpRejects (screen (js ''a@b.co'') (js ''12345'') False [])) = [] \<and>
   map fst (requests (signUpWithEmail SignUpRejects (screen (js ''a@b.co'') (js ''123456'') False []))) =
     [SignUp (js ''a@b.co'') (js ''123456'')]"
proof -
  have f: "\<not> email_format (js ''not-an-email'')" "email_format (js ''a@b.co'')"
    by (simp_all add: format_defs literal_defs)
  from f
    signUp_validation_order [of "screen [] [] False []" SignUpRejects]
    signUp_validation_order [of "screen (js ''not-an-email'') (js ''123456'') False []" SignUpRejects]
    signUp_validation_order [of "screen (js ''a@b.co'') (js ''12345'') False []" SignUpRejects]
    signUp_validation_order [of "screen (js ''a@b.co'') (js ''123456'') False []" SignUpRejects]
  show ?thesis
    by (simp add: screen_def js_def)
qed

subsection \<open>What the service answers\<close>

lemma signUp_accepts:
  assumes "test emailRegex e" and "6 \<le> length p"
  shows "e \<noteq> []" and "p \<noteq> []"
  using assms by (auto simp: test_emailRegex dest: email_format_nonempty)

text \<open>
  Claim C4: when the sign-in request is made (both fields non-empty) and the service
  answers with an error, \<open>error\<close> ends as "Incorrect email or password" for the message
  "Invalid login credentials", as "Please verify your email first" for "Email not
  confirmed", and as the generic message for every other message, and \<open>loading\<close> ends
  false.
\<close>

theorem signIn_service_error:
  assumes "email (form w) \<noteq> []" and "password (form w) \<noteq> []"
  shows "error (form (signInWithEmail (SignInResolves (Some (AuthError m))) w)) =
           (if m = js ''Invalid login credentials'' then js ''Incorrect email or password''
            else if m = js ''Email not confirmed'' then js ''Please verify your email first''
            else js ''An unexpected error occurred. Please try again.'') \<and>
         loading (form (signInWithEmail (SignInResolves (Some (AuthError m))) w)) = False"
  using assms by (simp add: handler_defs setter_defs)

theorem signIn_service_error_witness:
  "email (form (screen (js ''a@b.co'') (js ''123456'') False [])) \<noteq> [] \<and>
   password (form (screen (js ''a@b.co'') (js ''123456'') False [])) \<noteq> [] \<and>
   error (form (signInWithEmail (SignInResolves (Some (AuthError (js ''Invalid login credentials''))))
      (screen (js ''a@b.co'') (js ''123456'') False [])))
     = js ''Incorrect email or password'' \<and>
   loading (form (signInWithEmail (SignInResolves (Some (AuthError (js ''Invalid login credentials''))))
      (screen (js ''a@b.co'') (js ''123456'') False []))) = False \<and>
   error (form (signInWithEmail (SignInResolves (Some (AuthError (js ''Database is down''))))
      (screen (js ''a@b.co'') (js ''123456'') False [])))
     = js ''An unexpected error occurred. Please try again.''"
proof -
  have h: "email (form (screen (js ''a@b.co'') (js ''123456'') False [])) \<noteq> []"
    "password (form (screen (js ''a@b.co'') (js ''123456'') False [])) \<noteq> []"
    by (simp_all add: screen_def js_def)
  from h signIn_service_error [OF h, of "js ''Invalid login credentials''"]
    signIn_service_error [OF h, of "js ''Database is down''"]
  show ?thesis
    by (simp add: js_def)
qed

text \<open>
  Claim C5: when the request is made and the awaited call throws, \<open>error\<close> ends as the
  network message and \<open>loading\<close> ends false, for sign-in and for sign-up. The
  \<open>finally\<close> block runs however the promise settles: \<open>loading\<close> ends false for every
  answer of the service.
\<close>

theorem transport_failure:
  "(email (form w) \<noteq> [] \<and> password (form w) \<noteq> [] \<longrightarrow>
      error (form (signInWithEmail SignInRejects w)) =
        js ''Network error. Please check your connection.'' \<and>
      (\<forall>r. loading (form (signInWithEmail r w)) = False)) \<and>
   (test emailRegex (email (form w)) \<and> 6 \<le> length (password (form w)) \<longrightarrow>
      error (form (signUpWithEmail SignUpRejects w)) =
        js ''Network error. Please check your connection.'' \<and>
      (\<forall>r. loading (form (signUpWithEmail r w)) = False))"
proof (rule conjI; rule impI)
  assume "email (form w) \<noteq> [] \<and> password (form w) \<noteq> []"
  then show "error (form (signInWithEmail SignInRejects w)) =
        js ''Network error. Please check your connection.'' \<and>
      (\<forall>r. loading (form (signInWithEmail r w)) = False)"
    by (simp add: handler_defs setter_defs split: SignInResult.split option.split)
next
  assume h: "test emailRegex (email (form w)) \<and> 6 \<le> length (password (form w))"
  then have "email (form w) \<noteq> []" "password (form w) \<noteq> []"
    by (auto dest: signUp_accepts)
  with h show "error (form (signUpWithEmail SignUpRejects w)) =
        js ''Network error. Please check your connection.'' \<and>
      (\<forall>r. loading (form (signUpWithEmail r w)) = False)"
    by (simp add: handler_defs setter_defs split: SignUpResult.split option.split)
qed

theorem transport_failure_witness:
  "email (form (screen (js ''a@b.co'') (js ''123456'') False [])) \<noteq> [] \<and>
   password (form (screen (js ''a@b.co'') (js ''123456'') False [])) \<noteq> [] \<and>
   test emailRegex (email (form (screen (js ''a@b.co'') (js ''123456'') False []))) \<and>
   6 \<le> length (password (form (screen (js ''a@b.co'') (js ''123456'') False []))) \<and>
   error (form (signInWithEmail SignInRejects (screen (js ''a@b.co'') (js ''123456'') False [])))
     = js ''Network error. Please check your connection.'' \<and>
   loading (form (signInWithEmail SignInRejects (screen (js ''a@b.co'') (js ''123456'') False []))) = False \<and>
   error (form (signUpWithEmail SignUpRejects (screen (js ''a@b.co'') (js ''123456'') False [])))
     = js ''Network error. Please check your connection.'' \<and>
   loading (form (signUpWithEmail SignUpRejects (screen (js ''a@b.co'') (js ''123456'') False []))) = False"
proof -
  have h: "email (form (screen (js ''a@b.co'') (js ''123456'') False [])) \<noteq> []"
    "password (form (screen (js ''a@b.co'') (js ''123456'') False [])) \<noteq> []"
    "test emailRegex (email (form (screen (js ''a@b.co'') (js ''123456'') False [])))"
    "6 \<le> length (password (form (screen (js ''a@b.co'') (js ''123456'') False [])))"
    by (simp_all add: screen_def literal_defs regex_defs)
  from h transport_failure [of "screen (js ''a@b.co'') (js ''123456'') False []"]
  show ?thesis
    by simp
qed

text \<open>
  Claim C6: when the sign-up request is made and the service answers with no error and no
  session, \<open>error\<close> ends empty, \<open>loading\<close> ends false, and exactly one alert is raised,
  with the text "Please check your inbox for email verification!". The notice goes through
  \<open>Alert.alert\<close>, not through \<open>error\<close>.
\<close>

theorem signUp_pending_verification:
  assumes "test emailRegex (email (form w))" and "6 \<le> length (password (form w))"
  shows "error (form (signUpWithEmail (SignUpResolves None None) w)) = [] \<and>
         loading (form (signUpWithEmail (SignUpResolves None None) w)) = False \<and>
         alerts (signUpWithEmail (SignUpResolves None None) w) =
           alerts w @ [(js ''Verification Needed'',
                        js ''Please check your inbox for email verification!'')]"
  using assms signUp_accepts [OF assms]
  by (simp add: handler_defs setter_defs)

theorem signUp_pending_verification_witness:
  "test emailRegex (email (form (screen (js ''a@b.co'') (js ''123456'') False (js ''User already exists'')))) \<and>
   6 \<le> length (password (form (screen (js ''a@b.co'') (js ''123456'') False (js ''User already exists'')))) \<and>
   error (form (signUpWithEmail (SignUpResolves None None)
      (screen (js ''a@b.co'') (js ''123456'') False (js ''User already exists'')))) = [] \<and>
   loading (form (signUpWithEmail (SignUpResolves None None)
      (screen (js ''a@b.co'') (js ''123456'') False (js ''User already exists'')))) = False \<and>
   alerts (signUpWithEmail (SignUpResolves None None)
      (screen (js ''a@b.co'') (js ''123456'') False (js ''User already exists''))) =
     [(js ''Verification Needed'', js ''Please check your inbox for email verification!'')]"
proof -
  have h: "test emailRegex (email (form (screen (js ''a@b.co'') (js ''123456'') False (js ''User already exists''))))"
    "6 \<le> length (password (form (screen (js ''a@b.co'') (js ''123456'') False (js ''User already exists''))))"
    by (simp_all add: screen_def literal_defs regex_defs)
  from h signUp_pending_verification [OF h]
  show ?thesis
    by (simp add: screen_def)
qed

text \<open>
  Claim C7: when the sign-up request is made and the service answers with an error,
  \<open>error\<close> ends as "An account with this email already exists" for the message "User
  already exists"; for any other message it ends as that message when it is non-empty and
  as "Sign up failed. Please try again." when it is empty. A session in the answer makes
  no difference.
\<close>

theorem signUp_service_error:
  assumes "test emailRegex (email (form w))" and "6 \<le> length (password (form w))"
  shows "error (form (signUpWithEmail (SignUpResolves s (Some (AuthError m))) w)) =
           (if m = js ''User already exists'' then js ''An account with this email already exists''
            else if m \<noteq> [] then m
            else js ''Sign up failed. Please try again.'')"
  using assms signUp_accepts [OF assms]
  by (simp add: handler_defs setter_defs)

theorem signUp_service_error_witness:
  "test emailRegex (email (form (screen (js ''a@b.co'') (js ''123456'') False []))) \<and>
   6 \<le> length (password (form (screen (js ''a@b.co'') (js ''123456'') False []))) \<and>
   error (form (signUpWithEmail (SignUpResolves None (Some (AuthError (js ''User already exists''))))
      (screen (js ''a@b.co'') (js ''123456'') False [])))
     = js ''An account with this email already exists'' \<and>
   error (form (signUpWithEmail (SignUpResolves None (Some (AuthError (js ''Rate limit exceeded''))))
      (screen (js ''a@b.co'') (js ''123456'') False [])))
     = js ''Rate limit exceeded'' \<and>
   error (form (signUpWithEmail (SignUpResolves None (Some (AuthError [])))
      (screen (js ''a@b.co'') (js ''123456'') False [])))
     = js ''Sign up failed. Please try again.''"
proof -
  have h: "test emailRegex (email (form (screen (js ''a@b.co'') (js ''123456'') False [])))"
    "6 \<le> length (password (form (screen (js ''a@b.co'') (js ''123456'') False [])))"
    by (simp_all add: screen_def literal_defs regex_defs)
  from h signUp_service_error [OF h, of None "js ''User already exists''"]
    signUp_service_error [OF h, of None "js ''Rate limit exceeded''"]
    signUp_service_error [OF h, of None "[]"]
  show ?thesis
    by (simp add: js_def)
qed

subsection \<open>The error is cleared before the request is issued\<close>

lemma signIn_begin_cleared:
  "cleared_at_dispatch w \<Longrightarrow>
     cleared_at_dispatch (case signInWithEmail_begin w of Inl w' \<Rightarrow> w' | Inr w' \<Rightarrow> w')"
  by (auto simp: cleared_at_dispatch_def signInWithEmail_begin_def setter_defs)

lemma signUp_begin_cleared:
  "cleared_at_dispatch w \<Longrightarrow>
     cleared_at_dispatch (case signUpWithEmail_begin w of Inl w' \<Rightarrow> w' | Inr w' \<Rightarrow> w')"
  by (auto simp: cleared_at_dispatch_def signUpWithEmail_begin_def setter_defs)

lemma resume_cleared:
  "cleared_at_dispatch w \<Longrightarrow> cleared_at_dispatch (signInWithEmail_resume r w)"
  "cleared_at_dispatch w \<Longrightarrow> cleared_at_dispatch (signUpWithEmail_resume r' w)"
  by (auto simp: cleared_at_dispatch_def signInWithEmail_resume_def signUpWithEmail_resume_def
      setter_defs split: SignInResult.split SignUpResult.split option.split)

lemma onChange_cleared:
  "\<not> loading (form w) \<Longrightarrow> cleared_at_dispatch w \<Longrightarrow> cleared_at_dispatch (onChangeEmail t w)"
  "\<not> loading (form w) \<Longrightarrow> cleared_at_dispatch w \<Longrightarrow> cleared_at_dispatch (onChangePassword t w)"
  by (auto simp: cleared_at_dispatch_def onChangeEmail_def onChangePassword_def setter_defs)

lemma fire_cleared:
  assumes "cleared_at_dispatch (fst s)"
  shows "cleared_at_dispatch (fst (fire e s))"
proof (cases s)
  case (Pair w q)
  with assms have w: "cleared_at_dispatch w" by simp
  show ?thesis
  proof (cases e)
    case PressSignIn
    with Pair w signIn_begin_cleared [OF w] show ?thesis
      by (simp split: sum.splits)
  next
    case PressSignUp
    with Pair w signUp_begin_cleared [OF w] show ?thesis
      by (simp split: sum.splits)
  qed (use Pair w in \<open>simp_all add: resume_cleared onChange_cleared\<close>)
qed

lemma run_snoc: "run (es @ [e]) = fire e (run es)"
  by (simp add: run_def)

lemma run_cleared: "cleared_at_dispatch (fst (run es))"
proof (induction es rule: rev_induct)
  case Nil
  show ?case by (simp add: run_def initial_def screen_def cleared_at_dispatch_def)
next
  case (snoc e es)
  then show ?case by (simp add: run_snoc fire_cleared)
qed

text \<open>
  Claim C8: on every screen reached from the initial one by keystrokes, presses and
  answers of the service, every call that was issued was issued from a form state with
  \<open>loading\<close> set and \<open>error\<close> empty; and when \<open>loading\<close> is set, a call has been
  issued, the latest one from a form state with \<open>loading\<close> set and \<open>error\<close> empty.
\<close>

theorem error_cleared_before_dispatch:
  "(\<forall>(c, f) \<in> set (requests (fst (run es))). loading f \<and> error f = []) \<and>
   (loading (form (fst (run es))) \<longrightarrow>
      requests (fst (run es)) \<noteq> [] \<and>
      loading (snd (last (requests (fst (run es))))) \<and>
      error (snd (last (requests (fst (run es))))) = [])"
proof -
  have c: "cleared_at_dispatch (fst (run es))" by (rule run_cleared)
  then have a: "\<forall>(c, f) \<in> set (requests (fst (run es))). loading f \<and> error f = []"
    and b: "loading (form (fst (run es))) \<longrightarrow> requests (fst (run es)) \<noteq> []"
    by (simp_all add: cleared_at_dispatch_def)
  have "loading (snd (last (requests (fst (run es))))) \<and>
        error (snd (last (requests (fst (run es))))) = []"
    if "requests (fst (run es)) \<noteq> []"
    using a last_in_set [OF that] by (auto simp: case_prod_beta)
  with a b show ?thesis by blast
qed

theorem error_cleared_before_dispatch_witness:
  "error (form (fst (run [TypeEmail (js ''a@b.co''), TypePassword (js ''123456''), PressSignIn,
      SignInSettles (SignInResolves (Some (AuthError (js ''Invalid login credentials''))))])))
     = js ''Incorrect email or password'' \<and>
   loading (form (fst (run [TypeEmail (js ''a@b.co''), TypePassword (js ''123456''), PressSignIn,
      SignInSettles (SignInResolves (Some (AuthError (js ''Invalid login credentials'')))),
      PressSignUp]))) \<and>
   length (requests (fst (run [TypeEmail (js ''a@b.co''), TypePassword (js ''123456''), PressSignIn,
      SignInSettles (SignInResolves (Some (AuthError (js ''Invalid login credentials'')))),
      PressSignUp]))) = 2 \<and>
   error (snd (last (requests (fst (run [TypeEmail (js ''a@b.co''), TypePassword (js ''123456''),
      PressSignIn,
      SignInSettles (SignInResolves (Some (AuthError (js ''Invalid login credentials'')))),
      PressSignUp]))))) = []"
proof -
  have l: "loading (form (fst (run [TypeEmail (js ''a@b.co''), TypePassword (js ''123456''),
      PressSignIn,
      SignInSettles (SignInResolves (Some (AuthError (js ''Invalid login credentials'')))),
      PressSignUp])))"
    and n: "length (requests (fst (run [TypeEmail (js ''a@b.co''), TypePassword (js ''123456''),
      PressSignIn,
      SignInSettles (SignInResolves (Some (AuthError (js ''Invalid login credentials'')))),
      PressSignUp]))) = 2"
    and e: "error (form (fst (run [TypeEmail (js ''a@b.co''), TypePassword (js ''123456''),
      PressSignIn,
      SignInSettles (SignInResolves (Some (AuthError (js ''Invalid login credentials''))))])))
     = js ''Incorrect email or password''"
    by (simp_all add: run_def initial_def screen_def onChangeEmail_def onChangePassword_def
        signInWithEmail_begin_def signInWithEmail_resume_def signUpWithEmail_begin_def
        setter_defs literal_defs trim_def regex_defs)
  from l n e error_cleared_before_dispatch [of "[TypeEmail (js ''a@b.co''),
      TypePassword (js ''123456''), PressSignIn,
      SignInSettles (SignInResolves (Some (AuthError (js ''Invalid login credentials'')))),
      PressSignUp]"]
  show ?thesis
    by blast
qed

subsection \<open>Editing a field\<close>

text \<open>
  Claim C9: a change of the email or of the password input stores the given text in its
  field and sets \<open>error\<close> to the empty string, whatever the state before (a non-empty
  \<open>error\<close> included); applying the same change twice gives the same state as applying it
  once, and a second change leaves \<open>error\<close> empty.
\<close>

theorem onChange_clears_error:
  "email (form (onChangeEmail t w)) = t \<and> error (form (onChangeEmail t w)) = [] \<and>
   password (form (onChangePassword t w)) = t \<and> error (form (onChangePassword t w)) = [] \<and>
   onChangeEmail t (onChangeEmail t w) = onChangeEmail t w \<and>
   onChangePassword t (onChangePassword t w) = onChangePassword t w \<and>
   error (form (onChangeEmail t' (onChangeEmail t w))) = error (form (onChangeEmail t w)) \<and>
   error (form (onChangePassword t' (onChangePassword t w))) =
     error (form (onChangePassword t w))"
  by (simp add: onChangeEmail_def onChangePassword_def setter_defs)

theorem onChange_clears_error_witness:
  "error (form (screen [] [] False (js ''Incorrect email or password''))) \<noteq> [] \<and>
   email (form (onChangeEmail (js ''a'') (screen [] [] False (js ''Incorrect email or password''))))
     = js ''a'' \<and>
   error (form (onChangeEmail (js ''a'') (screen [] [] False (js ''Incorrect email or password''))))
     = [] \<and>
   password (form (onChangePassword (js ''a'') (screen [] [] False (js ''Incorrect email or password''))))
     = js ''a'' \<and>
   error (form (onChangePassword (js ''a'') (screen [] [] False (js ''Incorrect email or password''))))
     = []"
  using onChange_clears_error [of "js ''a''" "screen [] [] False (js ''Incorrect email or password'')"]
  by (simp add: screen_def js_def)

subsection \<open>What a submission leaves alone\<close>

text \<open>
  Claim C10: whatever path an invocation of the sign-in or the sign-up handler takes, and
  whatever the service answers, the \<open>email\<close> and \<open>password\<close> fields are afterwards what
  they were before; the trimmed email goes into the call only.
\<close>

theorem submit_keeps_credentials:
  "email (form (signInWithEmail r w)) = email (form w) \<and>
   password (form (signInWithEmail r w)) = password (form w) \<and>
   email (form (signUpWithEmail r' w)) = email (form w) \<and>
   password (form (signUpWithEmail r' w)) = password (form w)"
  by (simp add: submit_keeps)

theorem submit_keeps_credentials_witness:
  "map fst (requests (signInWithEmail (SignInResolves None) (screen (js '' a@b.co '') (js ''123456'') False [])))
     = [SignInWithPassword (js ''a@b.co'') (js ''123456'')] \<and>
   email (form (signInWithEmail (SignInResolves None) (screen (js '' a@b.co '') (js ''123456'') False [])))
     = js '' a@b.co '' \<and>
   password (form (signInWithEmail (SignInResolves None) (screen (js '' a@b.co '') (js ''123456'') False [])))
     = js ''123456''"
proof -
  have "map fst (requests (signInWithEmail (SignInResolves None) (screen (js '' a@b.co '') (js ''123456'') False [])))
     = [SignInWithPassword (js ''a@b.co'') (js ''123456'')]"
    by (simp add: screen_def handler_defs setter_defs literal_defs trim_def)
  with submit_keeps_credentials [of "SignInResolves None"
      "screen (js '' a@b.co '') (js ''123456'') False []"]
  show ?thesis
    by (simp add: screen_def)
qed

end
